theory Spec2Isabelle
  imports Main "HOL-Library.Multiset"
begin

section \<open>Exceptions and observable effects\<close>

text \<open>
  A Python exception is a value. \<open>Exception msg\<close> stands for any exception derived from
  \<open>Exception\<close> whose \<open>str\<close> is \<open>msg\<close>; \<open>AttributeError a\<close> is the read of attribute \<open>a\<close>
  on \<open>None\<close>; \<open>IndexError\<close> is a list index out of range; \<open>KeyError k\<close> is a dictionary
  lookup of a key that is absent. A computation that may raise returns \<open>exn + 'a\<close>, with
  \<open>Inl\<close> the raised exception. Every handler of the program is \<open>except Exception\<close>, which
  catches all four.
\<close>

datatype exn = Exception string | AttributeError string | IndexError | KeyError nat

text \<open>
  What \<open>call_llm\<close> does to the outside world, in order: a request to the completion
  endpoint, or a \<open>time.sleep\<close> of the given number of seconds.
\<close>

datatype event = Completion | Sleep nat

section \<open>Formatting\<close>

text \<open>Decimal digits of a natural number, as \<open>str(n)\<close> and the format \<open>d\<close> print them.\<close>

definition digit_char :: "nat \<Rightarrow> char" where
  "digit_char d = ''0123456789'' ! d"

fun dec :: "nat \<Rightarrow> string" where
  "dec n = (if n < 10 then [digit_char n] else dec (n div 10) @ [digit_char (n mod 10)])"

declare dec.simps [simp del]

text \<open>The format \<open>03d\<close>: decimal, padded with zeros on the left to a width of at least 3.\<close>

definition fmt_03d :: "nat \<Rightarrow> string" where
  "fmt_03d n = replicate (3 - length (dec n)) (CHR ''0'') @ dec n"

text \<open>\<open>str(e)\<close>, as the f-strings of the handlers print the exception.\<close>

fun str_exn :: "exn \<Rightarrow> string" where
  "str_exn (Exception msg) = msg"
| "str_exn (AttributeError a) =
     [CHR 0x27] @ ''NoneType'' @ [CHR 0x27] @ '' object has no attribute ''
       @ [CHR 0x27] @ a @ [CHR 0x27]"
| "str_exn IndexError = ''list index out of range''"
| "str_exn (KeyError k) = dec k"

section \<open>Data model\<close>

record DimensionTuple =
  occasion :: string
  author_style :: string
  ingredients :: "string list"
  cooking_method :: string

text \<open>The field \<open>id\<close> of the source is \<open>id_str\<close> here: \<open>id\<close> is the identity function of HOL.\<close>

record QueryWithDimensions =
  id_str :: string
  query :: string
  dimension_tuple :: DimensionTuple
  is_realistic_and_kept :: int
  notes_for_filtering :: string

record DimensionTuplesList =
  tuples :: "DimensionTuple list"

record QueriesList =
  queries :: "string list"

definition NUM_QUERIES_PER_TUPLE :: nat where
  "NUM_QUERIES_PER_TUPLE = 5"

definition OUTPUT_CSV_PATH :: string where
  "OUTPUT_CSV_PATH = ''synthetic_queries_for_analysis.csv''"

section \<open>The canonical serialisation: \<open>model_dump_json\<close>\<close>

text \<open>
  \<open>model_dump_json\<close> is the library's compact JSON writer: the fields in declaration
  order, no white space, strings between double quotes with the quote, the backslash and
  the control characters below 0x20 escaped, every other byte written as it is. A
  \<open>string\<close> is the UTF-8 bytes of the Python string.
\<close>

definition hex_digit :: "nat \<Rightarrow> char" where
  "hex_digit n = ''0123456789abcdef'' ! n"

definition json_escape :: "char \<Rightarrow> string" where
  "json_escape c =
     (if c = CHR 0x22 then [CHR 0x5C, CHR 0x22]
      else if c = CHR 0x5C then [CHR 0x5C, CHR 0x5C]
      else if c = CHR 0x08 then [CHR 0x5C, CHR ''b'']
      else if c = CHR 0x0C then [CHR 0x5C, CHR ''f'']
      else if c = CHR 0x0A then [CHR 0x5C, CHR ''n'']
      else if c = CHR 0x0D then [CHR 0x5C, CHR ''r'']
      else if c = CHR 0x09 then [CHR 0x5C, CHR ''t'']
      else if (of_char c :: nat) < 32 then
        [CHR 0x5C, CHR ''u'', CHR ''0'', CHR ''0'',
         hex_digit (of_char c div 16), hex_digit (of_char c mod 16)]
      else [c])"

definition json_string :: "string \<Rightarrow> string" where
  "json_string s = CHR 0x22 # concat (map json_escape s) @ [CHR 0x22]"

fun join_comma :: "string list \<Rightarrow> string" where
  "join_comma [] = []"
| "join_comma [x] = x"
| "join_comma (x # y # ys) = x @ '','' @ join_comma (y # ys)"

definition json_array :: "string list \<Rightarrow> string" where
  "json_array xs = ''['' @ join_comma xs @ '']''"

definition model_dump_json :: "DimensionTuple \<Rightarrow> string" where
  "model_dump_json t =
     ''{'' @ json_string ''occasion'' @ '':'' @ json_string (occasion t)
     @ '','' @ json_string ''author_style'' @ '':'' @ json_string (author_style t)
     @ '','' @ json_string ''ingredients'' @ '':''
         @ json_array (map json_string (ingredients t))
     @ '','' @ json_string ''cooking_method'' @ '':'' @ json_string (cooking_method t)
     @ ''}''"

section \<open>The structured caller: \<open>call_llm\<close>\<close>

text \<open>
  The endpoint is outside the program. \<open>completion n\<close> is what the \<open>n\<close>-th request of this
  call (counted from 0) does: it raises, or it returns the content of the first choice.
  The messages of the request are fixed during the call, so they are part of
  \<open>completion\<close>. \<open>response_format\<close> is \<open>response_format(**json.loads(content))\<close>: it raises
  on malformed JSON or on a schema violation, or returns the parsed value. Both sit in
  the same \<open>try\<close> block, so either failure reaches the same handler.
\<close>

definition max_retries :: nat where
  "max_retries = 3"

definition attempt_once ::
  "(nat \<Rightarrow> exn + string) \<Rightarrow> (string \<Rightarrow> exn + 'a) \<Rightarrow> nat \<Rightarrow> exn + 'a" where
  "attempt_once completion response_format n =
     (case completion n of
        Inl e \<Rightarrow> Inl e
      | Inr content \<Rightarrow> response_format content)"

text \<open>
  The loop \<open>for attempt in range(max_retries)\<close>, over the list of the remaining values of
  \<open>attempt\<close>. The trace \<open>tr\<close> holds the events so far. A loop that runs out without
  returning makes the Python function return \<open>None\<close>: that is \<open>Inr None\<close>.
\<close>

fun call_llm_loop ::
  "(nat \<Rightarrow> exn + string) \<Rightarrow> (string \<Rightarrow> exn + 'a) \<Rightarrow> nat list \<Rightarrow> event list
     \<Rightarrow> (exn + 'a option) \<times> event list" where
  "call_llm_loop completion response_format [] tr = (Inr None, tr)"
| "call_llm_loop completion response_format (attempt # rest) tr =
     (case attempt_once completion response_format attempt of
        Inr v \<Rightarrow> (Inr (Some v), tr @ [Completion])
      | Inl e \<Rightarrow>
          if attempt = max_retries - 1 then (Inl e, tr @ [Completion])
          else call_llm_loop completion response_format rest (tr @ [Completion, Sleep 1]))"

definition call_llm ::
  "(nat \<Rightarrow> exn + string) \<Rightarrow> (string \<Rightarrow> exn + 'a) \<Rightarrow> (exn + 'a option) \<times> event list" where
  "call_llm completion response_format =
     call_llm_loop completion response_format [0..<max_retries] []"

section \<open>The dimension tuple generator: \<open>generate_dimension_tuples\<close>\<close>

text \<open>
  \<open>for future in futures: responses.append(future.result())\<close>. A future holds what its
  task did: \<open>result()\<close> returns the task's value or raises the task's exception again, and
  the first one that raises ends the loop.
\<close>

fun collect_responses :: "(exn + 'a) list \<Rightarrow> 'a list \<Rightarrow> exn + 'a list" where
  "collect_responses [] responses = Inr responses"
| "collect_responses (future # rest) responses =
     (case future of
        Inl e \<Rightarrow> Inl e
      | Inr r \<Rightarrow> collect_responses rest (responses @ [r]))"

text \<open>
  \<open>for response in responses: all_tuples.extend(response.tuples)\<close>. A response that is
  \<open>None\<close> has no attribute \<open>tuples\<close>.
\<close>

fun extend_all ::
  "DimensionTuplesList option list \<Rightarrow> DimensionTuple list \<Rightarrow> exn + DimensionTuple list" where
  "extend_all [] all_tuples = Inr all_tuples"
| "extend_all (None # rest) all_tuples = Inl (AttributeError ''tuples'')"
| "extend_all (Some response # rest) all_tuples =
     extend_all rest (all_tuples @ tuples response)"

text \<open>The deduplication loop, with its two accumulators \<open>unique_tuples\<close> and \<open>seen\<close>.\<close>

fun dedup_loop ::
  "DimensionTuple list \<Rightarrow> DimensionTuple list \<Rightarrow> string set \<Rightarrow> DimensionTuple list" where
  "dedup_loop [] unique_tuples seen = unique_tuples"
| "dedup_loop (tup # rest) unique_tuples seen =
     (let tuple_str = model_dump_json tup in
      if tuple_str \<notin> seen
      then dedup_loop rest (unique_tuples @ [tup]) (insert tuple_str seen)
      else dedup_loop rest unique_tuples seen)"

definition dedup :: "DimensionTuple list \<Rightarrow> DimensionTuple list" where
  "dedup all_tuples = dedup_loop all_tuples [] {}"

text \<open>
  The five tasks are submitted with the same messages; \<open>completions i\<close> is what the
  endpoint does for the requests of task \<open>i\<close>. The result is the returned list and the
  lines printed.
\<close>

definition submit_tuple_tasks ::
  "(nat \<Rightarrow> nat \<Rightarrow> exn + string) \<Rightarrow> (string \<Rightarrow> exn + DimensionTuplesList)
     \<Rightarrow> (exn + DimensionTuplesList option) list" where
  "submit_tuple_tasks completions response_format =
     map (\<lambda>i. fst (call_llm (completions i) response_format)) [0..<5]"

definition generate_dimension_tuples ::
  "(nat \<Rightarrow> nat \<Rightarrow> exn + string) \<Rightarrow> (string \<Rightarrow> exn + DimensionTuplesList)
     \<Rightarrow> DimensionTuple list \<times> string list" where
  "generate_dimension_tuples completions response_format =
     (let printed = [''Generating dimension tuples in parallel...''];
          futures = submit_tuple_tasks completions response_format;
          body =
            (case collect_responses futures [] of
               Inl e \<Rightarrow> Inl e
             | Inr responses \<Rightarrow>
                 (case extend_all responses [] of
                    Inl e \<Rightarrow> Inl e
                  | Inr all_tuples \<Rightarrow> Inr (all_tuples, dedup all_tuples)))
      in case body of
           Inr (all_tuples, unique_tuples) \<Rightarrow>
             (unique_tuples,
              printed @ [''Generated '' @ dec (length all_tuples) @ '' total tuples, ''
                       @ dec (length unique_tuples) @ '' unique''])
         | Inl e \<Rightarrow> ([], printed @ [''Error generating dimension tuples: '' @ str_exn e]))"

section \<open>The query synthesizer\<close>

text \<open>
  \<open>generate_queries_for_tuple\<close>: the prompt is built from the tuple \<open>dim_tuple\<close> (the
  source's \<open>dimension_tuple\<close>), so the endpoint's behaviour \<open>llm dim_tuple\<close> depends on it. The result is the returned list and the
  lines printed.
\<close>

definition generate_queries_for_tuple ::
  "(DimensionTuple \<Rightarrow> nat \<Rightarrow> exn + string) \<Rightarrow> (string \<Rightarrow> exn + QueriesList)
     \<Rightarrow> DimensionTuple \<Rightarrow> string list \<times> string list" where
  "generate_queries_for_tuple llm response_format dim_tuple =
     (let body =
            (case fst (call_llm (llm dim_tuple) response_format) of
               Inl e \<Rightarrow> Inl e
             | Inr None \<Rightarrow> Inl (AttributeError ''queries'')
             | Inr (Some response) \<Rightarrow> Inr (queries response))
      in case body of
           Inr qs \<Rightarrow> (qs, [])
         | Inl e \<Rightarrow> ([], [''Error generating queries for tuple: '' @ str_exn e]))"

text \<open>
  The state of the merge loop of \<open>generate_queries_parallel\<close>: the records emitted so far,
  the counter, the progress bar's count and the lines printed by the merging thread.
\<close>

record merge_state =
  all_queries :: "QueryWithDimensions list"
  query_id :: nat
  pbar :: nat
  out :: "string list"

text \<open>\<open>for query in queries\<close>: one record per query, numbered by the shared counter.\<close>

fun append_queries :: "string list \<Rightarrow> DimensionTuple \<Rightarrow> merge_state \<Rightarrow> merge_state" where
  "append_queries [] dt s = s"
| "append_queries (q # qs) dt s =
     append_queries qs dt
       (s\<lparr>all_queries := all_queries s @
            [\<lparr>id_str = ''SYN'' @ fmt_03d (query_id s), query = q, dimension_tuple = dt,
              is_realistic_and_kept = 1, notes_for_filtering = ''''\<rparr>],
          query_id := query_id s + 1\<rparr>)"

text \<open>
  The body of the \<open>try\<close> for one completed future. \<open>dimension_tuples[tuple_idx]\<close> is read
  when the first record is built, inside the \<open>try\<close>, so an index out of range is caught by
  the same handler as a failed future, before any record of that future is appended.
\<close>

definition merge_future ::
  "DimensionTuple list \<Rightarrow> nat \<Rightarrow> exn + string list \<Rightarrow> merge_state \<Rightarrow> merge_state" where
  "merge_future dimension_tuples tuple_idx future s =
     (let body =
            (case future of
               Inl e \<Rightarrow> Inl e
             | Inr qs \<Rightarrow>
                 if qs \<noteq> [] then
                   (if tuple_idx < length dimension_tuples
                    then Inr (append_queries qs (dimension_tuples ! tuple_idx) s)
                    else Inl IndexError)
                 else Inr s)
      in case body of
           Inr s' \<Rightarrow> s'\<lparr>pbar := pbar s' + 1\<rparr>
         | Inl e \<Rightarrow>
             s\<lparr>out := out s @ [''Tuple '' @ dec (tuple_idx + 1)
                                  @ '' generated an exception: '' @ str_exn e],
               pbar := pbar s + 1\<rparr>)"

text \<open>
  \<open>for future in as_completed(future_to_tuple)\<close>. Futures are named by their submission
  number; \<open>completed\<close> is the order in which \<open>as_completed\<close> yields them. The lookup
  \<open>future_to_tuple[future]\<close> is outside the \<open>try\<close>.
\<close>

fun merge_completed ::
  "DimensionTuple list \<Rightarrow> (nat \<rightharpoonup> nat) \<Rightarrow> (nat \<Rightarrow> exn + string list) \<Rightarrow> nat list
     \<Rightarrow> merge_state \<Rightarrow> exn + merge_state" where
  "merge_completed dimension_tuples future_to_tuple result [] s = Inr s"
| "merge_completed dimension_tuples future_to_tuple result (future # rest) s =
     (case future_to_tuple future of
        None \<Rightarrow> Inl (KeyError future)
      | Some tuple_idx \<Rightarrow>
          merge_completed dimension_tuples future_to_tuple result rest
            (merge_future dimension_tuples tuple_idx (result future) s))"

text \<open>
  \<open>generate_queries_parallel\<close>. Task \<open>i\<close> runs \<open>generate_queries_for_tuple\<close> on the \<open>i\<close>-th
  tuple against the endpoint behaviour \<open>llm i\<close>; a task that returns makes its future's
  \<open>result()\<close> return. The dictionary \<open>future_to_tuple\<close> sends the future of task \<open>i\<close> to \<open>i\<close>.
  An execution of the program has for \<open>completed\<close> a permutation of the submitted futures.
\<close>

definition generate_queries_parallel ::
  "(nat \<Rightarrow> DimensionTuple \<Rightarrow> nat \<Rightarrow> exn + string) \<Rightarrow> (string \<Rightarrow> exn + QueriesList)
     \<Rightarrow> nat list \<Rightarrow> DimensionTuple list \<Rightarrow> exn + QueryWithDimensions list \<times> string list" where
  "generate_queries_parallel llm response_format completed dimension_tuples =
     (let s0 = \<lparr>all_queries = [], query_id = 1, pbar = 0,
                out = [''Generating '' @ dec NUM_QUERIES_PER_TUPLE @ '' queries each for ''
                         @ dec (length dimension_tuples) @ '' dimension tuples...'']\<rparr>;
          future_to_tuple = map_of (map (\<lambda>(i, dim_tuple). (i, i)) (enumerate 0 dimension_tuples));
          result = (\<lambda>i. Inr (fst (generate_queries_for_tuple (llm i) response_format
                                     (dimension_tuples ! i))))
      in case merge_completed dimension_tuples future_to_tuple result completed s0 of
           Inl e \<Rightarrow> Inl e
         | Inr s \<Rightarrow> Inr (all_queries s, out s))"

section \<open>The persister: \<open>save_queries_to_csv\<close>\<close>

text \<open>
  The world of the persister: the files, each holding the rows of the data frame written
  to it (the textual layout of the CSV is the library's), and the lines printed.
\<close>

record csv_row =
  col_id :: string
  col_query :: string
  col_dimension_tuple_json :: string
  col_is_realistic_and_kept :: int
  col_notes_for_filtering :: string

record world =
  files :: "string \<rightharpoonup> csv_row list"
  stdout :: "string list"

definition to_row :: "QueryWithDimensions \<Rightarrow> csv_row" where
  "to_row q =
     \<lparr>col_id = id_str q, col_query = query q,
      col_dimension_tuple_json = model_dump_json (dimension_tuple q),
      col_is_realistic_and_kept = is_realistic_and_kept q,
      col_notes_for_filtering = notes_for_filtering q\<rparr>"

definition save_queries_to_csv :: "QueryWithDimensions list \<Rightarrow> world \<Rightarrow> (exn + unit) \<times> world" where
  "save_queries_to_csv qs w =
     (if qs = [] then (Inr (), w\<lparr>stdout := stdout w @ [''No queries to save.'']\<rparr>)
      else
        let df = map to_row qs
        in (Inr (),
            w\<lparr>files := (files w)(OUTPUT_CSV_PATH \<mapsto> df),
              stdout := stdout w @ [''Saved '' @ dec (length qs) @ '' queries to ''
                                      @ OUTPUT_CSV_PATH]\<rparr>))"

section \<open>The chat backend: \<open>get_agent_response\<close>\<close>

record message =
  role :: string
  content :: string

text \<open>
  Lists are objects: the heap holds the list objects allocated so far, and a reference is
  the position of one of them. \<open>xs + ys\<close> allocates a new list and leaves its operands as
  they are, as a list display does.
\<close>

type_synonym ref = nat

record chat_world =
  heap :: "message list list"
  requests :: "message list list"

definition alloc :: "message list \<Rightarrow> chat_world \<Rightarrow> ref \<times> chat_world" where
  "alloc xs w = (length (heap w), w\<lparr>heap := heap w @ [xs]\<rparr>)"

definition list_add :: "ref \<Rightarrow> ref \<Rightarrow> chat_world \<Rightarrow> ref \<times> chat_world" where
  "list_add a b w = alloc (heap w ! a @ heap w ! b) w"

text \<open>\<open>str.strip()\<close> on text whose white space is ASCII.\<close>

definition is_space :: "char \<Rightarrow> bool" where
  "is_space c = (let n = (of_char c :: nat) in (9 \<le> n \<and> n \<le> 13) \<or> (28 \<le> n \<and> n \<le> 32))"

definition strip :: "string \<Rightarrow> string" where
  "strip s = rev (dropWhile is_space (rev (dropWhile is_space s)))"

text \<open>
  \<open>completion msgs\<close> is what \<open>litellm.completion\<close> does with the messages \<open>msgs\<close>, followed
  by the read of the first choice's content: it raises, or gives the content. The request
  is recorded in \<open>requests\<close>. The constant \<open>SYSTEM_PROMPT\<close> is a parameter.
\<close>

definition get_agent_response ::
  "string \<Rightarrow> (message list \<Rightarrow> exn + string) \<Rightarrow> ref \<Rightarrow> chat_world \<Rightarrow> (exn + ref) \<times> chat_world" where
  "get_agent_response SYSTEM_PROMPT completion messages w =
     (let (current_messages, w1) =
            (if heap w ! messages = [] \<or> role (heap w ! messages ! 0) \<noteq> ''system''
             then (let (sys, w') = alloc [\<lparr>role = ''system'', content = SYSTEM_PROMPT\<rparr>] w
                   in list_add sys messages w')
             else (messages, w));
          w2 = w1\<lparr>requests := requests w1 @ [heap w1 ! current_messages]\<rparr>
      in case completion (heap w1 ! current_messages) of
           Inl e \<Rightarrow> (Inl e, w2)
         | Inr reply \<Rightarrow>
             (let assistant_reply_content = strip reply;
                  (new, w3) = alloc [\<lparr>role = ''assistant'', content = assistant_reply_content\<rparr>] w2;
                  (updated_messages, w4) = list_add current_messages new w3
              in (Inr updated_messages, w4)))"

section \<open>Reading an identifier back\<close>

text \<open>
  The number an identifier carries: the decimal value of what follows its three-letter
  prefix. It is not part of the program; the statements about identifiers use it to speak
  of the identifier's number.
\<close>

definition undec :: "string \<Rightarrow> nat" where
  "undec s = foldl (\<lambda>a c. 10 * a + (of_char c - 48)) 0 s"

definition id_number :: "string \<Rightarrow> nat" where
  "id_number s = undec (drop 3 s)"

text \<open>
  The records built from a list of (query, tuple) pairs, numbered from \<open>k\<close> on. It is
  not part of the program; the lemmas about the merge loop are stated with it.
\<close>

definition numbered :: "nat \<Rightarrow> (string \<times> DimensionTuple) list \<Rightarrow> QueryWithDimensions list" where
  "numbered k ps =
     map (\<lambda>(j, (q, dt)). \<lparr>id_str = ''SYN'' @ fmt_03d j, query = q, dimension_tuple = dt,
                            is_realistic_and_kept = 1, notes_for_filtering = ''''\<rparr>)
       (enumerate k ps)"

section \<open>Example inputs\<close>

text \<open>An endpoint that fails on the first two requests and answers the third.\<close>

definition mock_fail_twice :: "nat \<Rightarrow> exn + string" where
  "mock_fail_twice n = (if n < 2 then Inl (Exception ''timeout'') else Inr ''ok'')"

definition ex_tuple_a :: DimensionTuple where
  "ex_tuple_a = \<lparr>occasion = ''brunch'', author_style = ''Eric Kim'',
                  ingredients = [''oats'', ''chocolate''], cooking_method = ''no bake''\<rparr>"

definition ex_tuple_b :: DimensionTuple where
  "ex_tuple_b = \<lparr>occasion = ''weeknight'', author_style = ''Hetty McKinnon'',
                  ingredients = [''tofu''], cooking_method = ''grilling''\<rparr>"

definition ex_tuple_c :: DimensionTuple where
  "ex_tuple_c = \<lparr>occasion = ''dessert'', author_style = ''Yotam Ottolenghi'',
                  ingredients = [], cooking_method = ''no cook''\<rparr>"

text \<open>
  An endpoint that fails every request of task 1 and answers the others with the
  occasion of the tuple, and a parser that makes two queries of the content.
\<close>

definition ex_llm :: "nat \<Rightarrow> DimensionTuple \<Rightarrow> nat \<Rightarrow> exn + string" where
  "ex_llm i t n = (if i = 1 then Inl (Exception ''rate limit'') else Inr (occasion t))"

definition ex_queries_format :: "string \<Rightarrow> exn + QueriesList" where
  "ex_queries_format txt = Inr \<lparr>queries = [txt @ '' ideas'', txt @ '' plz'']\<rparr>"

text \<open>
  Endpoints for the five tuple tasks: one where task 3 fails every request, one where
  every task is answered; a parser that reads the same two tuples out of any content. An
  empty file system, a record to save, and two conversations on the heap.
\<close>

definition ex_completions :: "nat \<Rightarrow> nat \<Rightarrow> exn + string" where
  "ex_completions i n = (if i = 3 then Inl (Exception ''timeout'') else Inr ''batch'')"

definition ex_tuples_format :: "string \<Rightarrow> exn + DimensionTuplesList" where
  "ex_tuples_format txt = Inr \<lparr>tuples = [ex_tuple_a, ex_tuple_b]\<rparr>"

definition ex_all_succeed :: "nat \<Rightarrow> nat \<Rightarrow> exn + string" where
  "ex_all_succeed i n = Inr ''batch''"

definition empty_world :: world where
  "empty_world = \<lparr>files = Map.empty, stdout = []\<rparr>"

definition ex_record :: QueryWithDimensions where
  "ex_record = \<lparr>id_str = ''SYN001'', query = ''brunch ideas'', dimension_tuple = ex_tuple_a,
                 is_realistic_and_kept = 1, notes_for_filtering = ''''\<rparr>"

definition ex_prompt :: string where
  "ex_prompt = ''You are an expert chef.''"

definition ex_chat :: "message list \<Rightarrow> exn + string" where
  "ex_chat msgs = Inr '' Try shakshuka. ''"

definition ex_chat_world :: chat_world where
  "ex_chat_world = \<lparr>heap = [[\<lparr>role = ''user'', content = ''hi''\<rparr>]], requests = []\<rparr>"

definition ex_chat_world_sys :: chat_world where
  "ex_chat_world_sys =
     \<lparr>heap = [[\<lparr>role = ''system'', content = ''Be brief.''\<rparr>, \<lparr>role = ''user'', content = ''hi''\<rparr>]],
      requests = []\<rparr>"

text \<open>A completion that raises.\<close>

definition ex_chat_down :: "message list \<Rightarrow> exn + string" where
  "ex_chat_down msgs = Inl (Exception ''service unavailable'')"

section \<open>Properties of \<open>call_llm\<close>\<close>

lemma range_max_retries: "[0..<max_retries] = [0, 1, 2]"
  by (simp add: max_retries_def upt_rec)

text \<open>
  C2. \<open>call_llm\<close> requests the completion at most 3 times, with a sleep of 1 second between
  two consecutive requests and none after the last. Whatever the three attempts do: the
  first attempt that succeeds ends the call with its parsed value, and when all three fail
  the exception of the third attempt is raised. In particular two failures followed by a
  success give the successful value after exactly 3 requests.
\<close>

theorem call_llm_retry_policy:
  fixes completion :: "nat \<Rightarrow> exn + string" and response_format :: "string \<Rightarrow> exn + 'a"
  defines "att \<equiv> attempt_once completion response_format"
  shows "(att 0 = Inr v \<longrightarrow>
            call_llm completion response_format = (Inr (Some v), [Completion]))
       \<and> (att 0 = Inl e0 \<and> att 1 = Inr v \<longrightarrow>
            call_llm completion response_format =
              (Inr (Some v), [Completion, Sleep 1, Completion]))
       \<and> (att 0 = Inl e0 \<and> att 1 = Inl e1 \<and> att 2 = Inr v \<longrightarrow>
            call_llm completion response_format =
              (Inr (Some v), [Completion, Sleep 1, Completion, Sleep 1, Completion]))
       \<and> (att 0 = Inl e0 \<and> att 1 = Inl e1 \<and> att 2 = Inl e2 \<longrightarrow>
            call_llm completion response_format =
              (Inl e2, [Completion, Sleep 1, Completion, Sleep 1, Completion]))
       \<and> length (filter (\<lambda>ev. ev = Completion) (snd (call_llm completion response_format))) \<le> 3
       \<and> fst (call_llm completion response_format) \<noteq> Inr None"
  unfolding att_def call_llm_def range_max_retries
  by (simp add: max_retries_def split: sum.splits)

theorem call_llm_retry_policy_witness:
  "attempt_once mock_fail_twice Inr 0 = Inl (Exception ''timeout'')
   \<and> attempt_once mock_fail_twice Inr 1 = Inl (Exception ''timeout'')
   \<and> attempt_once mock_fail_twice Inr 2 = Inr ''ok''
   \<and> call_llm mock_fail_twice Inr
        = (Inr (Some ''ok''), [Completion, Sleep 1, Completion, Sleep 1, Completion])"
  using call_llm_retry_policy [where completion = mock_fail_twice and response_format = Inr
      and v = "''ok''" and ?e0.0 = "Exception ''timeout''" and ?e1.0 = "Exception ''timeout''"]
  by (simp add: mock_fail_twice_def attempt_once_def)

section \<open>The serialisation is injective\<close>

lemma hex_digit_inj: "m < 16 \<Longrightarrow> n < 16 \<Longrightarrow> hex_digit m = hex_digit n \<Longrightarrow> m = n"
proof -
  assume m: "m < 16" and n: "n < 16" and eq: "hex_digit m = hex_digit n"
  have d: "distinct ''0123456789abcdef''" by simp
  have l: "length ''0123456789abcdef'' = 16" by simp
  from eq show "m = n"
    unfolding hex_digit_def using nth_eq_iff_index_eq [OF d, of m n] m n l by simp
qed

lemma json_escape_nonempty: "json_escape c \<noteq> []"
  by (simp add: json_escape_def)

lemma json_escape_hd: "hd (json_escape c) \<noteq> CHR 0x22"
  by (simp add: json_escape_def)

lemma low_char_eq:
  fixes c d :: char
  assumes "(of_char c :: nat) div 16 = of_char d div 16" "(of_char c :: nat) mod 16 = of_char d mod 16"
  shows "c = d"
proof -
  have "(of_char c :: nat) = of_char d"
    using assms by (metis div_mult_mod_eq)
  then show ?thesis by simp
qed

lemma low_hex_eq:
  fixes c d :: char
  assumes "(of_char c :: nat) < 32" "(of_char d :: nat) < 32"
    and "hex_digit (of_char c div 16) = hex_digit (of_char d div 16)"
    and "hex_digit (of_char c mod 16) = hex_digit (of_char d mod 16)"
  shows "c = d"
proof -
  have "(of_char c :: nat) div 16 < 16" "(of_char d :: nat) div 16 < 16"
    using assms(1,2) by simp_all
  then have 1: "(of_char c :: nat) div 16 = of_char d div 16"
    using assms(3) by (rule hex_digit_inj)
  have "(of_char c :: nat) mod 16 < 16" "(of_char d :: nat) mod 16 < 16"
    by simp_all
  then have 2: "(of_char c :: nat) mod 16 = of_char d mod 16"
    using assms(4) by (rule hex_digit_inj)
  from 1 2 show ?thesis by (rule low_char_eq)
qed

lemma json_escape_prefix:
  "json_escape c @ x = json_escape d @ y \<Longrightarrow> c = d \<and> x = y"
  by (auto simp: json_escape_def split: if_splits intro: low_hex_eq)

lemma json_body_prefix:
  "concat (map json_escape a) @ CHR 0x22 # r1 = concat (map json_escape b) @ CHR 0x22 # r2
     \<Longrightarrow> a = b \<and> r1 = r2"
proof (induction a arbitrary: b)
  case Nil
  show ?case
  proof (cases b)
    case Nil
    with Nil.prems show ?thesis by simp
  next
    case (Cons d b')
    with Nil.prems have "CHR 0x22 # r1 = json_escape d @ concat (map json_escape b') @ CHR 0x22 # r2"
      by simp
    then have "hd (json_escape d) = CHR 0x22"
      using json_escape_nonempty [of d] by (cases "json_escape d") auto
    then show ?thesis using json_escape_hd by blast
  qed
next
  case (Cons c a')
  show ?case
  proof (cases b)
    case Nil
    with Cons.prems have "json_escape c @ concat (map json_escape a') @ CHR 0x22 # r1 = CHR 0x22 # r2"
      by simp
    then have "hd (json_escape c) = CHR 0x22"
      using json_escape_nonempty [of c] by (cases "json_escape c") auto
    then show ?thesis using json_escape_hd by blast
  next
    case (Cons d b')
    with Cons.prems have
      "json_escape c @ (concat (map json_escape a') @ CHR 0x22 # r1)
         = json_escape d @ (concat (map json_escape b') @ CHR 0x22 # r2)"
      by simp
    then have "c = d" and
      "concat (map json_escape a') @ CHR 0x22 # r1 = concat (map json_escape b') @ CHR 0x22 # r2"
      using json_escape_prefix by blast+
    with Cons.IH [of b'] Cons show ?thesis by simp
  qed
qed

lemma json_string_prefix:
  "json_string a @ r1 = json_string b @ r2 \<Longrightarrow> a = b \<and> r1 = r2"
  using json_body_prefix [of a r1 b r2] by (simp add: json_string_def)

lemma join_json_prefix:
  "join_comma (map json_string xs) @ CHR '']'' # r1
     = join_comma (map json_string ys) @ CHR '']'' # r2 \<Longrightarrow> xs = ys \<and> r1 = r2"
proof (induction xs arbitrary: ys)
  case Nil
  show ?case
  proof (cases ys)
    case Nil
    with Nil.prems show ?thesis by simp
  next
    case (Cons y ys')
    then have "\<exists>r. join_comma (map json_string ys) = json_string y @ r"
      by (cases ys') simp_all
    then obtain r where "join_comma (map json_string ys) = json_string y @ r" ..
    with Nil.prems have "CHR '']'' # r1 = json_string y @ (r @ CHR '']'' # r2)"
      by simp
    then show ?thesis by (simp add: json_string_def)
  qed
next
  case (Cons x xs')
  show ?case
  proof (cases ys)
    case Nil
    have "\<exists>r. join_comma (map json_string (x # xs')) = json_string x @ r"
      by (cases xs') simp_all
    then obtain r where "join_comma (map json_string (x # xs')) = json_string x @ r" ..
    with Cons.prems Nil have "json_string x @ (r @ CHR '']'' # r1) = CHR '']'' # r2"
      by simp
    then show ?thesis by (simp add: json_string_def)
  next
    case (Cons y ys')
    note ys = this
    show ?thesis
    proof (cases xs')
      case Nil
      note xs' = this
      show ?thesis
      proof (cases ys')
        case Nil
        with Cons.prems ys xs' have "json_string x @ CHR '']'' # r1 = json_string y @ CHR '']'' # r2"
          by simp
        then have "x = y \<and> CHR '']'' # r1 = CHR '']'' # r2" by (rule json_string_prefix)
        with ys xs' Nil show ?thesis by simp
      next
        case (Cons y2 ys2)
        with Cons.prems ys xs' have
          "json_string x @ (CHR '']'' # r1)
             = json_string y @ (CHR '','' # join_comma (map json_string (y2 # ys2)) @ CHR '']'' # r2)"
          by simp
        then have "CHR '']'' # r1 = CHR '','' # join_comma (map json_string (y2 # ys2)) @ CHR '']'' # r2"
          using json_string_prefix by blast
        then show ?thesis by simp
      qed
    next
      case (Cons x2 xs2)
      note xs' = this
      show ?thesis
      proof (cases ys')
        case Nil
        with Cons.prems ys xs' have
          "json_string x @ (CHR '','' # join_comma (map json_string (x2 # xs2)) @ CHR '']'' # r1)
             = json_string y @ (CHR '']'' # r2)"
          by simp
        then have "CHR '','' # join_comma (map json_string (x2 # xs2)) @ CHR '']'' # r1 = CHR '']'' # r2"
          using json_string_prefix by blast
        then show ?thesis by simp
      next
        case (Cons y2 ys2)
        with Cons.prems ys xs' have
          "json_string x @ (CHR '','' # join_comma (map json_string xs') @ CHR '']'' # r1)
             = json_string y @ (CHR '','' # join_comma (map json_string ys') @ CHR '']'' # r2)"
          by simp
        then have "x = y" and
          "join_comma (map json_string xs') @ CHR '']'' # r1
             = join_comma (map json_string ys') @ CHR '']'' # r2"
          using json_string_prefix by blast+
        with Cons.IH [of ys'] ys show ?thesis by simp
      qed
    qed
  qed
qed

lemma model_dump_json_inj: "model_dump_json s = model_dump_json t \<Longrightarrow> s = t"
proof -
  assume eq: "model_dump_json s = model_dump_json t"
  let ?k1 = "json_string ''occasion''" and ?k2 = "json_string ''author_style''"
  let ?k3 = "json_string ''ingredients''" and ?k4 = "json_string ''cooking_method''"
  let ?rest3 = "\<lambda>u. CHR '','' # ?k4 @ CHR '':'' # json_string (cooking_method u) @ ''}''"
  let ?rest2 = "\<lambda>u. CHR '','' # ?k3 @ CHR '':'' # CHR ''['' #
                 join_comma (map json_string (ingredients u)) @ CHR '']'' # ?rest3 u"
  let ?rest1 = "\<lambda>u. CHR '','' # ?k2 @ CHR '':'' # json_string (author_style u) @ ?rest2 u"
  have form: "model_dump_json u = CHR ''{'' # ?k1 @ CHR '':'' # json_string (occasion u) @ ?rest1 u" for u
    by (simp add: model_dump_json_def json_array_def)
  from eq have "json_string (occasion s) @ ?rest1 s = json_string (occasion t) @ ?rest1 t"
    unfolding form by simp
  then have o: "occasion s = occasion t" and r1: "?rest1 s = ?rest1 t"
    using json_string_prefix by blast+
  from r1 have "json_string (author_style s) @ ?rest2 s = json_string (author_style t) @ ?rest2 t"
    by simp
  then have a: "author_style s = author_style t" and r2: "?rest2 s = ?rest2 t"
    using json_string_prefix by blast+
  from r2 have "join_comma (map json_string (ingredients s)) @ CHR '']'' # ?rest3 s
      = join_comma (map json_string (ingredients t)) @ CHR '']'' # ?rest3 t"
    by simp
  then have i: "ingredients s = ingredients t" and r3: "?rest3 s = ?rest3 t"
    using join_json_prefix by blast+
  from r3 have "json_string (cooking_method s) @ ''}'' = json_string (cooking_method t) @ ''}''"
    by simp
  then have c: "cooking_method s = cooking_method t"
    using json_string_prefix by blast
  from o a i c show "s = t" by simp
qed

section \<open>Properties of the deduplication\<close>

lemma dedup_loop_acc:
  "dedup_loop xs acc seen = acc @ dedup_loop xs [] seen"
proof (induction xs arbitrary: acc seen)
  case Nil
  show ?case by simp
next
  case (Cons x xs)
  show ?case
    using Cons.IH [of "acc @ [x]"] Cons.IH [of "[x]"] Cons.IH [of acc seen]
    by (simp add: Let_def)
qed

lemma dedup_loop_seen:
  "dedup_loop xs [] seen = filter (\<lambda>y. model_dump_json y \<notin> seen) (dedup_loop xs [] {})"
proof (induction xs arbitrary: seen)
  case Nil
  show ?case by simp
next
  case (Cons x xs)
  have a: "dedup_loop xs [x] s = x # dedup_loop xs [] s" for s
    using dedup_loop_acc [of xs "[x]" s] by simp
  show ?case
    using Cons.IH [of seen] Cons.IH [of "insert (model_dump_json x) seen"]
      Cons.IH [of "{model_dump_json x}"]
    by (auto simp: Let_def a intro: filter_cong)
qed

lemma dedup_Nil: "dedup [] = []"
  by (simp add: dedup_def)

lemma dedup_Cons:
  "dedup (x # xs) = x # filter (\<lambda>y. model_dump_json y \<noteq> model_dump_json x) (dedup xs)"
proof -
  have "dedup (x # xs) = x # dedup_loop xs [] {model_dump_json x}"
    using dedup_loop_acc [of xs "[x]" "{model_dump_json x}"] by (simp add: dedup_def)
  also have "dedup_loop xs [] {model_dump_json x}
      = filter (\<lambda>y. model_dump_json y \<noteq> model_dump_json x) (dedup xs)"
    using dedup_loop_seen [of xs "{model_dump_json x}"] by (simp add: dedup_def)
  finally show ?thesis .
qed

lemma set_dedup: "set (dedup xs) = set xs"
proof (induction xs)
  case Nil
  show ?case by (simp add: dedup_Nil)
next
  case (Cons x xs)
  then show ?case
    by (auto simp: dedup_Cons dest: model_dump_json_inj)
qed

lemma distinct_dedup: "distinct (map model_dump_json (dedup xs))"
proof (induction xs)
  case Nil
  show ?case by (simp add: dedup_Nil)
next
  case (Cons x xs)
  then show ?case
    by (auto simp: dedup_Cons distinct_map_filter)
qed

lemma dedup_distinct: "distinct (map model_dump_json ys) \<Longrightarrow> dedup ys = ys"
proof (induction ys)
  case Nil
  show ?case by (simp add: dedup_Nil)
next
  case (Cons y ys)
  then have "filter (\<lambda>z. model_dump_json z \<noteq> model_dump_json y) ys = ys"
    by (auto simp: filter_id_conv dest: sym rev_image_eqI)
  with Cons show ?case by (simp add: dedup_Cons)
qed

lemma dedup_index:
  "dedup xs = map (\<lambda>i. xs ! i)
     (filter (\<lambda>i. \<forall>j<i. model_dump_json (xs ! j) \<noteq> model_dump_json (xs ! i)) [0..<length xs])"
proof (induction xs)
  case Nil
  show ?case by (simp add: dedup_Nil)
next
  case (Cons x xs)
  let ?d = model_dump_json
  have up: "[0..<length (x # xs)] = 0 # map Suc [0..<length xs]"
    by (simp add: upt_conv_Cons map_Suc_upt del: upt_Suc)
  have "filter (\<lambda>y. ?d y \<noteq> ?d x) (dedup xs)
      = map (\<lambda>i. xs ! i) (filter (\<lambda>i. ?d (xs ! i) \<noteq> ?d x \<and> (\<forall>j<i. ?d (xs ! j) \<noteq> ?d (xs ! i)))
          [0..<length xs])"
    by (subst Cons.IH) (simp add: filter_map comp_def conj_commute)
  also have "\<dots> = map (\<lambda>i. (x # xs) ! i)
       (filter (\<lambda>i. \<forall>j<i. ?d ((x # xs) ! j) \<noteq> ?d ((x # xs) ! i)) (map Suc [0..<length xs]))"
    by (simp add: filter_map comp_def All_less_Suc2 eq_commute [of "?d x"] cong: conj_cong)
  finally show ?case
    unfolding up by (simp add: dedup_Cons)
qed

lemma model_dump_json_eq_iff: "model_dump_json s = model_dump_json t \<longleftrightarrow> s = t"
  using model_dump_json_inj by blast

lemma extend_all_Some:
  "extend_all (map Some rs) acc = Inr (acc @ concat (map tuples rs))"
  by (induction rs arbitrary: acc) simp_all

text \<open>
  C7. The deduplication keeps the tuple at position \<open>i\<close> of the merged list exactly when no
  earlier position holds a tuple with the same serialisation, and keeps the kept tuples in
  the order of the merged list: two tuples count as the same iff their \<open>model_dump_json\<close>
  strings are identical, the first occurrence of each serialisation stays, later ones are
  dropped. So the serialisations of the output are pairwise distinct, and they are those
  of the input.
\<close>

theorem dedup_first_occurrences:
  "dedup xs = map (\<lambda>i. xs ! i)
      (filter (\<lambda>i. \<forall>j<i. model_dump_json (xs ! j) \<noteq> model_dump_json (xs ! i)) [0..<length xs])
   \<and> distinct (map model_dump_json (dedup xs))
   \<and> model_dump_json ` set (dedup xs) = model_dump_json ` set xs"
  using dedup_index [of xs] distinct_dedup [of xs] set_dedup [of xs] by simp

theorem dedup_first_occurrences_witness:
  "dedup [ex_tuple_a, ex_tuple_b, ex_tuple_a, ex_tuple_c, ex_tuple_b]
     = [ex_tuple_a, ex_tuple_b, ex_tuple_c]"
proof -
  let ?xs = "[ex_tuple_a, ex_tuple_b, ex_tuple_a, ex_tuple_c, ex_tuple_b]"
  have ne: "ex_tuple_a \<noteq> ex_tuple_b" "ex_tuple_a \<noteq> ex_tuple_c" "ex_tuple_b \<noteq> ex_tuple_c"
    by (simp_all add: ex_tuple_a_def ex_tuple_b_def ex_tuple_c_def)
  have "dedup ?xs = map (\<lambda>i. ?xs ! i)
      (filter (\<lambda>i. \<forall>j<i. model_dump_json (?xs ! j) \<noteq> model_dump_json (?xs ! i)) [0..<length ?xs])"
    using dedup_first_occurrences [of ?xs] by blast
  also have "\<dots> = [ex_tuple_a, ex_tuple_b, ex_tuple_c]"
    using ne by (simp add: upt_rec model_dump_json_eq_iff All_less_Suc eq_commute)
  finally show ?thesis .
qed

text \<open>
  C8. The deduplication is idempotent: applied to a list that is already deduplicated it
  returns that list. The set of unique tuples depends on the multiset of the tuples
  merged only, not on their order; in particular merging the same sub-results in another
  order gives the same set of unique tuples.
\<close>

theorem dedup_idempotent:
  "dedup (dedup xs) = dedup xs
   \<and> (mset xs = mset ys \<longrightarrow> set (dedup xs) = set (dedup ys))
   \<and> (mset rs = mset rs' \<longrightarrow>
        (\<exists>a b. extend_all (map Some rs) [] = Inr a \<and> extend_all (map Some rs') [] = Inr b
               \<and> set (dedup a) = set (dedup b)))"
proof (intro conjI impI)
  show "dedup (dedup xs) = dedup xs"
    using distinct_dedup [of xs] by (rule dedup_distinct)
next
  assume "mset xs = mset ys"
  then have "set xs = set ys" by (rule mset_eq_setD)
  then show "set (dedup xs) = set (dedup ys)" by (simp add: set_dedup)
next
  assume "mset rs = mset rs'"
  then have "set rs = set rs'" by (rule mset_eq_setD)
  then have "set (concat (map tuples rs)) = set (concat (map tuples rs'))" by simp
  then have "set (dedup (concat (map tuples rs))) = set (dedup (concat (map tuples rs')))"
    by (simp add: set_dedup)
  then show "\<exists>a b. extend_all (map Some rs) [] = Inr a \<and> extend_all (map Some rs') [] = Inr b
               \<and> set (dedup a) = set (dedup b)"
    by (simp add: extend_all_Some)
qed

theorem dedup_idempotent_witness:
  "mset [ex_tuple_a, ex_tuple_b, ex_tuple_a] = mset [ex_tuple_b, ex_tuple_a, ex_tuple_a]
   \<and> mset [\<lparr>tuples = [ex_tuple_a, ex_tuple_b]\<rparr>, \<lparr>tuples = [ex_tuple_a]\<rparr>]
       = mset [\<lparr>tuples = [ex_tuple_a]\<rparr>, \<lparr>tuples = [ex_tuple_a, ex_tuple_b]\<rparr>]
   \<and> dedup (dedup [ex_tuple_a, ex_tuple_b, ex_tuple_a]) = dedup [ex_tuple_a, ex_tuple_b, ex_tuple_a]
   \<and> set (dedup [ex_tuple_a, ex_tuple_b, ex_tuple_a]) = set (dedup [ex_tuple_b, ex_tuple_a, ex_tuple_a])
   \<and> set (dedup [ex_tuple_a, ex_tuple_b, ex_tuple_a]) = set (dedup [ex_tuple_a, ex_tuple_a, ex_tuple_b])"
  using dedup_idempotent [of "[ex_tuple_a, ex_tuple_b, ex_tuple_a]" "[ex_tuple_b, ex_tuple_a, ex_tuple_a]"
      "[\<lparr>tuples = [ex_tuple_a, ex_tuple_b]\<rparr>, \<lparr>tuples = [ex_tuple_a]\<rparr>]"
      "[\<lparr>tuples = [ex_tuple_a]\<rparr>, \<lparr>tuples = [ex_tuple_a, ex_tuple_b]\<rparr>]"]
  by (auto simp: add.commute)

section \<open>Identifiers read back\<close>

lemma digit_char_code: "d < 10 \<Longrightarrow> of_char (digit_char d) = 48 + d"
proof -
  assume "d < 10"
  then have "d \<in> {0, 1, 2, 3, 4, 5, 6, 7, 8, 9}" by auto
  then show ?thesis by (auto simp: digit_char_def)
qed

lemma undec_snoc: "undec (s @ [c]) = 10 * undec s + (of_char c - 48)"
  by (simp add: undec_def)

lemma undec_dec: "undec (dec n) = n"
proof (induction n rule: dec.induct)
  case (1 n)
  show ?case
  proof (cases "n < 10")
    case True
    then show ?thesis by (subst dec.simps) (simp add: undec_def digit_char_code)
  next
    case False
    then have "undec (dec n) = 10 * undec (dec (n div 10)) + (of_char (digit_char (n mod 10)) - 48)"
      by (subst dec.simps) (simp add: undec_snoc)
    also have "\<dots> = 10 * (n div 10) + n mod 10"
      using 1 False by (simp add: digit_char_code)
    finally show ?thesis by simp
  qed
qed

lemma undec_zeros: "undec (replicate k (CHR ''0'') @ s) = undec s"
proof -
  have "foldl (\<lambda>a c. 10 * a + (of_char c - 48)) 0 (replicate k (CHR ''0'')) = (0::nat)"
    by (induction k) simp_all
  then show ?thesis by (simp add: undec_def)
qed

lemma id_number_fmt: "id_number (''SYN'' @ fmt_03d n) = n"
  by (simp add: id_number_def fmt_03d_def undec_zeros undec_dec)

lemma numbered_Nil: "numbered k [] = []"
  by (simp add: numbered_def)

lemma numbered_Cons:
  "numbered k ((q, dt) # ps) =
     \<lparr>id_str = ''SYN'' @ fmt_03d k, query = q, dimension_tuple = dt,
      is_realistic_and_kept = 1, notes_for_filtering = ''''\<rparr> # numbered (Suc k) ps"
  by (simp add: numbered_def)

lemma numbered_append:
  "numbered k (ps @ ps') = numbered k ps @ numbered (k + length ps) ps'"
  by (simp add: numbered_def enumerate_append_eq)

lemma length_numbered: "length (numbered k ps) = length ps"
  by (simp add: numbered_def)

lemma id_str_numbered:
  "map id_str (numbered k ps) = map (\<lambda>j. ''SYN'' @ fmt_03d j) [k..<k + length ps]"
proof (induction ps arbitrary: k)
  case Nil
  show ?case by (simp add: numbered_Nil)
next
  case (Cons p ps)
  obtain q dt where p: "p = (q, dt)" by (cases p)
  have up: "[k..<Suc (k + length ps)] = k # [Suc k..<Suc (k + length ps)]"
    by (simp add: upt_conv_Cons del: upt_Suc)
  show ?case
    using Cons.IH [of "Suc k"] by (simp add: p numbered_Cons up del: upt_Suc)
qed

lemma pairs_numbered:
  "map (\<lambda>r. (query r, dimension_tuple r)) (numbered k ps) = ps"
proof (induction ps arbitrary: k)
  case Nil
  show ?case by (simp add: numbered_Nil)
next
  case (Cons p ps)
  obtain q dt where p: "p = (q, dt)" by (cases p)
  show ?case
    using Cons.IH [of "Suc k"] by (simp add: p numbered_Cons)
qed

lemma append_queries_eq:
  "append_queries qs dt s =
     s\<lparr>all_queries := all_queries s @ numbered (query_id s) (map (\<lambda>q. (q, dt)) qs),
       query_id := query_id s + length qs\<rparr>"
proof (induction qs arbitrary: s)
  case Nil
  show ?case by (simp add: numbered_Nil)
next
  case (Cons q qs)
  show ?case
    by (simp add: Cons.IH numbered_Cons)
qed

lemma merge_future_ok:
  assumes "tuple_idx < length dimension_tuples"
  shows "merge_future dimension_tuples tuple_idx (Inr qs) s =
     s\<lparr>all_queries := all_queries s
          @ numbered (query_id s) (map (\<lambda>q. (q, dimension_tuples ! tuple_idx)) qs),
       query_id := query_id s + length qs, pbar := pbar s + 1\<rparr>"
  using assms by (cases "qs = []") (simp_all add: merge_future_def append_queries_eq numbered_Nil)

lemma merge_completed_eq:
  assumes "\<forall>f\<in>set completed.
             future_to_tuple f = Some f \<and> f < length dimension_tuples \<and> result f = Inr (qs f)"
  shows "merge_completed dimension_tuples future_to_tuple result completed s =
     Inr (s\<lparr>all_queries := all_queries s
               @ numbered (query_id s)
                   (concat (map (\<lambda>i. map (\<lambda>q. (q, dimension_tuples ! i)) (qs i)) completed)),
            query_id := query_id s + length (concat (map qs completed)),
            pbar := pbar s + length completed\<rparr>)"
  using assms
proof (induction completed arbitrary: s)
  case Nil
  show ?case by (simp add: numbered_Nil)
next
  case (Cons f rest)
  from Cons.prems have f: "future_to_tuple f = Some f" "f < length dimension_tuples"
    "result f = Inr (qs f)" and rest: "\<forall>f\<in>set rest.
       future_to_tuple f = Some f \<and> f < length dimension_tuples \<and> result f = Inr (qs f)"
    by simp_all
  show ?case
    by (simp add: f merge_future_ok Cons.IH [OF rest] numbered_append)
qed

lemma future_to_tuple_enumerate:
  "map_of (map (\<lambda>(i, dim_tuple). (i, i)) (enumerate k xs)) f
     = (if k \<le> f \<and> f < k + length xs then Some f else None)"
  by (induction xs arbitrary: k) auto

lemma generate_queries_parallel_eq:
  assumes "mset completed = mset [0..<length dimension_tuples]"
  shows "generate_queries_parallel llm response_format completed dimension_tuples =
     Inr (numbered 1
            (concat (map (\<lambda>i. map (\<lambda>q. (q, dimension_tuples ! i))
                                (fst (generate_queries_for_tuple (llm i) response_format
                                        (dimension_tuples ! i))))
                      completed)),
          [''Generating '' @ dec NUM_QUERIES_PER_TUPLE @ '' queries each for ''
             @ dec (length dimension_tuples) @ '' dimension tuples...''])"
proof -
  from assms have "set completed = set [0..<length dimension_tuples]"
    by (rule mset_eq_setD)
  then have in_range: "\<forall>f\<in>set completed. f < length dimension_tuples" by simp
  let ?f2t = "map_of (map (\<lambda>(i, dim_tuple). (i, i)) (enumerate 0 dimension_tuples))"
  let ?qs = "\<lambda>i. fst (generate_queries_for_tuple (llm i) response_format (dimension_tuples ! i))"
  have "\<forall>f\<in>set completed.
          ?f2t f = Some f \<and> f < length dimension_tuples \<and> (Inr (?qs f) :: exn + string list) = Inr (?qs f)"
    using in_range by (simp add: future_to_tuple_enumerate)
  note m = merge_completed_eq [where result = "\<lambda>i. Inr (?qs i)" and qs = ?qs, OF this]
  show ?thesis
    unfolding generate_queries_parallel_def Let_def by (simp add: m)
qed

section \<open>Properties of the query synthesizer and of the merge\<close>

lemma call_llm_all_fail:
  assumes "attempt_once completion response_format 0 = Inl e0"
    and "attempt_once completion response_format 1 = Inl e1"
    and "attempt_once completion response_format 2 = Inl e2"
  shows "fst (call_llm completion response_format) = Inl e2"
  using assms unfolding call_llm_def range_max_retries by (simp add: max_retries_def)

lemma generate_queries_for_tuple_fail:
  "fst (call_llm (llm t) response_format) = Inl e \<Longrightarrow>
     generate_queries_for_tuple llm response_format t
       = ([], [''Error generating queries for tuple: '' @ str_exn e])"
  by (simp add: generate_queries_for_tuple_def)

lemma generate_queries_for_tuple_ok:
  "fst (call_llm (llm t) response_format) = Inr (Some r) \<Longrightarrow>
     generate_queries_for_tuple llm response_format t = (queries r, [])"
  by (simp add: generate_queries_for_tuple_def)

lemma concat_map_filter_nonempty:
  "(\<And>x. x \<in> set xs \<Longrightarrow> \<not> P x \<Longrightarrow> g x = []) \<Longrightarrow>
     concat (map g xs) = concat (map g (filter P xs))"
  by (induction xs) auto

lemma numbered_index:
  "numbered k (map (\<lambda>(q, i). (q, dts ! i)) ps) =
     map (\<lambda>(j, (q, i)). \<lparr>id_str = ''SYN'' @ fmt_03d j, query = q, dimension_tuple = dts ! i,
                           is_realistic_and_kept = 1, notes_for_filtering = ''''\<rparr>)
       (enumerate k ps)"
proof (induction ps arbitrary: k)
  case Nil
  show ?case by (simp add: numbered_Nil)
next
  case (Cons p ps)
  obtain q i where p: "p = (q, i)" by (cases p)
  show ?case by (simp add: p numbered_Cons Cons.IH)
qed

lemma blocks_index:
  "concat (map (\<lambda>i. map (\<lambda>q. (q, dts ! i)) (qs i)) completed)
     = map (\<lambda>(q, i). (q, dts ! i)) (concat (map (\<lambda>i. map (\<lambda>q. (q, i)) (qs i)) completed))"
  by (induction completed) simp_all

lemmas ex_eval = generate_queries_parallel_def merge_future_def generate_queries_for_tuple_def
  call_llm_def range_max_retries attempt_once_def ex_llm_def ex_queries_format_def max_retries_def
  fmt_03d_def dec.simps digit_char_def NUM_QUERIES_PER_TUPLE_def enumerate_eq_zip upt_rec
  ex_tuple_a_def ex_tuple_b_def ex_tuple_c_def numeral_2_eq_2

lemma ex_perm: "mset [2, 0, 1] = mset [0..<length [ex_tuple_a, ex_tuple_b, ex_tuple_c]]"
  by (simp add: upt_rec)

lemma ex_run:
  "generate_queries_parallel ex_llm ex_queries_format [2, 0, 1] [ex_tuple_a, ex_tuple_b, ex_tuple_c]
     = Inr ([\<lparr>id_str = ''SYN001'', query = ''dessert ideas'', dimension_tuple = ex_tuple_c,
              is_realistic_and_kept = 1, notes_for_filtering = ''''\<rparr>,
             \<lparr>id_str = ''SYN002'', query = ''dessert plz'', dimension_tuple = ex_tuple_c,
              is_realistic_and_kept = 1, notes_for_filtering = ''''\<rparr>,
             \<lparr>id_str = ''SYN003'', query = ''brunch ideas'', dimension_tuple = ex_tuple_a,
              is_realistic_and_kept = 1, notes_for_filtering = ''''\<rparr>,
             \<lparr>id_str = ''SYN004'', query = ''brunch plz'', dimension_tuple = ex_tuple_a,
              is_realistic_and_kept = 1, notes_for_filtering = ''''\<rparr>],
            [''Generating 5 queries each for 3 dimension tuples...''])"
  by (simp add: ex_eval)

lemma ex_queries:
  "fst (generate_queries_for_tuple (ex_llm i) ex_queries_format t)
     = (if i = 1 then [] else [occasion t @ '' ideas'', occasion t @ '' plz''])"
  by (simp add: generate_queries_for_tuple_def call_llm_def upt_rec
      attempt_once_def ex_llm_def ex_queries_format_def max_retries_def)

text \<open>
  C4. In every execution of \<open>generate_queries_parallel\<close> (the futures completing in any
  order), the merge returns, and the identifiers of the emitted records, in emission order,
  are \<open>SYN\<close> followed by the numbers 1, 2, 3, ... with no gap: the \<open>k\<close>-th record carries
  the number \<open>k\<close>, also when read back from the identifier.
\<close>

theorem ids_count_from_one:
  assumes "mset completed = mset [0..<length dimension_tuples]"
  shows "\<exists>recs printed.
           generate_queries_parallel llm response_format completed dimension_tuples
             = Inr (recs, printed)
         \<and> map id_str recs = map (\<lambda>k. ''SYN'' @ fmt_03d k) [1..<Suc (length recs)]
         \<and> map (\<lambda>r. id_number (id_str r)) recs = [1..<Suc (length recs)]"
proof -
  let ?ps = "concat (map (\<lambda>i. map (\<lambda>q. (q, dimension_tuples ! i))
                 (fst (generate_queries_for_tuple (llm i) response_format (dimension_tuples ! i))))
               completed)"
  let ?recs = "numbered 1 ?ps"
  have ids: "map id_str ?recs = map (\<lambda>k. ''SYN'' @ fmt_03d k) [1..<Suc (length ?recs)]"
    using id_str_numbered [of 1 ?ps] by (simp add: length_numbered)
  have "map (\<lambda>r. id_number (id_str r)) ?recs = map id_number (map id_str ?recs)"
    by simp
  also have "\<dots> = map (\<lambda>k. k) [1..<Suc (length ?recs)]"
    unfolding ids by (simp only: map_map comp_def id_number_fmt)
  finally have nums: "map (\<lambda>r. id_number (id_str r)) ?recs = [1..<Suc (length ?recs)]"
    by simp
  show ?thesis
    using generate_queries_parallel_eq [OF assms, of llm response_format] ids nums by blast
qed

theorem ids_count_from_one_witness:
  "mset [2, 0, 1] = mset [0..<length [ex_tuple_a, ex_tuple_b, ex_tuple_c]]
   \<and> (\<exists>recs printed.
         generate_queries_parallel ex_llm ex_queries_format [2, 0, 1]
             [ex_tuple_a, ex_tuple_b, ex_tuple_c] = Inr (recs, printed)
       \<and> map id_str recs = [''SYN001'', ''SYN002'', ''SYN003'', ''SYN004'']
       \<and> map (\<lambda>r. id_number (id_str r)) recs = [1, 2, 3, 4])"
proof -
  from ids_count_from_one [OF ex_perm, of ex_llm ex_queries_format]
  obtain recs printed where
    run: "generate_queries_parallel ex_llm ex_queries_format [2, 0, 1]
            [ex_tuple_a, ex_tuple_b, ex_tuple_c] = Inr (recs, printed)"
    and ids: "map id_str recs = map (\<lambda>k. ''SYN'' @ fmt_03d k) [1..<Suc (length recs)]"
    and nums: "map (\<lambda>r. id_number (id_str r)) recs = [1..<Suc (length recs)]"
    by blast
  from run have "length recs = 4" unfolding ex_run by auto
  with ids nums have a: "map id_str recs = [''SYN001'', ''SYN002'', ''SYN003'', ''SYN004'']"
    and b: "map (\<lambda>r. id_number (id_str r)) recs = [1, 2, 3, 4]"
    by (simp_all add: upt_rec fmt_03d_def dec.simps digit_char_def numeral_2_eq_2)
  from run a b have "\<exists>recs printed.
         generate_queries_parallel ex_llm ex_queries_format [2, 0, 1]
             [ex_tuple_a, ex_tuple_b, ex_tuple_c] = Inr (recs, printed)
       \<and> map id_str recs = [''SYN001'', ''SYN002'', ''SYN003'', ''SYN004'']
       \<and> map (\<lambda>r. id_number (id_str r)) recs = [1, 2, 3, 4]"
    by (intro exI [of _ recs] exI [of _ printed] conjI)
  with ex_perm show ?thesis by (rule conjI)
qed

text \<open>
  C10. In every execution the output is the concatenation, in completion order, of one
  block per future: the queries its sub-request returned, in the order returned, each with
  the tuple of that sub-request; the records are numbered consecutively from 1 through the
  whole output, and an identifier is \<open>SYN\<close> followed by the number in decimal, padded
  with zeros on the left to at least 3 digits.
\<close>

theorem records_in_blocks:
  assumes "mset completed = mset [0..<length dimension_tuples]"
  shows "\<exists>printed.
           generate_queries_parallel llm response_format completed dimension_tuples
             = Inr (map (\<lambda>(k, (q, i)).
                          \<lparr>id_str = ''SYN'' @ replicate (3 - length (dec k)) (CHR ''0'') @ dec k,
                           query = q, dimension_tuple = dimension_tuples ! i,
                           is_realistic_and_kept = 1, notes_for_filtering = ''''\<rparr>)
                      (enumerate 1
                         (concat (map (\<lambda>i. map (\<lambda>q. (q, i))
                                     (fst (generate_queries_for_tuple (llm i) response_format
                                             (dimension_tuples ! i))))
                                   completed))),
                    printed)"
  using generate_queries_parallel_eq [OF assms, of llm response_format]
  by (simp add: blocks_index numbered_index fmt_03d_def)

theorem records_in_blocks_witness:
  "mset [2, 0, 1] = mset [0..<length [ex_tuple_a, ex_tuple_b, ex_tuple_c]]
   \<and> (\<exists>printed.
         generate_queries_parallel ex_llm ex_queries_format [2, 0, 1]
             [ex_tuple_a, ex_tuple_b, ex_tuple_c]
           = Inr ([\<lparr>id_str = ''SYN001'', query = ''dessert ideas'', dimension_tuple = ex_tuple_c,
                    is_realistic_and_kept = 1, notes_for_filtering = ''''\<rparr>,
                   \<lparr>id_str = ''SYN002'', query = ''dessert plz'', dimension_tuple = ex_tuple_c,
                    is_realistic_and_kept = 1, notes_for_filtering = ''''\<rparr>,
                   \<lparr>id_str = ''SYN003'', query = ''brunch ideas'', dimension_tuple = ex_tuple_a,
                    is_realistic_and_kept = 1, notes_for_filtering = ''''\<rparr>,
                   \<lparr>id_str = ''SYN004'', query = ''brunch plz'', dimension_tuple = ex_tuple_a,
                    is_realistic_and_kept = 1, notes_for_filtering = ''''\<rparr>], printed))"
proof -
  have occ: "occasion ex_tuple_a = ''brunch''" "occasion ex_tuple_c = ''dessert''"
    by (simp_all add: ex_tuple_a_def ex_tuple_c_def)
  show ?thesis
    using records_in_blocks [OF ex_perm, of ex_llm ex_queries_format] ex_perm
    by (simp add: ex_queries occ enumerate_eq_zip upt_rec dec.simps digit_char_def numeral_2_eq_2)
qed

text \<open>
  C9. When all three attempts of the sub-request of one tuple fail and the sub-requests
  of the other tuples succeed, the failing sub-request prints one line and returns no
  query, and the merge returns normally with the queries of the other tuples only, each
  with its tuple, in completion order. This holds for any number of tuples, 3 among them.
\<close>

theorem failed_tuple_contributes_nothing:
  assumes "mset completed = mset [0..<length dimension_tuples]"
    and "f < length dimension_tuples"
    and "attempt_once (llm f (dimension_tuples ! f)) response_format 0 = Inl e0"
    and "attempt_once (llm f (dimension_tuples ! f)) response_format 1 = Inl e1"
    and "attempt_once (llm f (dimension_tuples ! f)) response_format 2 = Inl e2"
    and "\<forall>i<length dimension_tuples. i \<noteq> f \<longrightarrow>
           fst (call_llm (llm i (dimension_tuples ! i)) response_format) = Inr (Some (r i))"
  shows "(\<exists>recs printed.
           generate_queries_parallel llm response_format completed dimension_tuples
             = Inr (recs, printed)
         \<and> map (\<lambda>x. (query x, dimension_tuple x)) recs
             = concat (map (\<lambda>i. map (\<lambda>q. (q, dimension_tuples ! i)) (queries (r i)))
                         (filter (\<lambda>i. i \<noteq> f) completed)))
         \<and> generate_queries_for_tuple (llm f) response_format (dimension_tuples ! f)
             = ([], [''Error generating queries for tuple: '' @ str_exn e2])"
proof -
  let ?qs = "\<lambda>i. fst (generate_queries_for_tuple (llm i) response_format (dimension_tuples ! i))"
  let ?block = "\<lambda>i. map (\<lambda>q. (q, dimension_tuples ! i)) (?qs i)"
  from assms(1) have "set completed = set [0..<length dimension_tuples]"
    by (rule mset_eq_setD)
  then have in_range: "i < length dimension_tuples" if "i \<in> set completed" for i
    using that by simp
  have "fst (call_llm (llm f (dimension_tuples ! f)) response_format) = Inl e2"
    using assms(3-5) by (rule call_llm_all_fail)
  then have failed: "generate_queries_for_tuple (llm f) response_format (dimension_tuples ! f)
      = ([], [''Error generating queries for tuple: '' @ str_exn e2])"
    by (rule generate_queries_for_tuple_fail)
  have ok: "?qs i = queries (r i)" if "i \<in> set completed" "i \<noteq> f" for i
    using assms(6) in_range [OF that(1)] that(2)
    by (simp add: generate_queries_for_tuple_ok)
  have "concat (map ?block completed) = concat (map ?block (filter (\<lambda>i. i \<noteq> f) completed))"
    by (rule concat_map_filter_nonempty) (simp add: failed)
  also have "\<dots> = concat (map (\<lambda>i. map (\<lambda>q. (q, dimension_tuples ! i)) (queries (r i)))
                         (filter (\<lambda>i. i \<noteq> f) completed))"
    by (rule arg_cong [where f = concat], rule map_cong) (simp_all add: ok)
  finally have blocks: "concat (map ?block completed)
      = concat (map (\<lambda>i. map (\<lambda>q. (q, dimension_tuples ! i)) (queries (r i)))
                  (filter (\<lambda>i. i \<noteq> f) completed))" .
  show ?thesis
    using generate_queries_parallel_eq [OF assms(1), of llm response_format]
      pairs_numbered [of 1 "concat (map ?block completed)"] blocks failed
    by simp
qed

theorem failed_tuple_contributes_nothing_witness:
  "mset [2, 0, 1] = mset [0..<length [ex_tuple_a, ex_tuple_b, ex_tuple_c]]
   \<and> (1::nat) < length [ex_tuple_a, ex_tuple_b, ex_tuple_c]
   \<and> attempt_once (ex_llm 1 ([ex_tuple_a, ex_tuple_b, ex_tuple_c] ! 1)) ex_queries_format 0
       = Inl (Exception ''rate limit'')
   \<and> attempt_once (ex_llm 1 ([ex_tuple_a, ex_tuple_b, ex_tuple_c] ! 1)) ex_queries_format 1
       = Inl (Exception ''rate limit'')
   \<and> attempt_once (ex_llm 1 ([ex_tuple_a, ex_tuple_b, ex_tuple_c] ! 1)) ex_queries_format 2
       = Inl (Exception ''rate limit'')
   \<and> fst (call_llm (ex_llm 0 ([ex_tuple_a, ex_tuple_b, ex_tuple_c] ! 0)) ex_queries_format)
       = Inr (Some \<lparr>queries = [''brunch ideas'', ''brunch plz'']\<rparr>)
   \<and> fst (call_llm (ex_llm 2 ([ex_tuple_a, ex_tuple_b, ex_tuple_c] ! 2)) ex_queries_format)
       = Inr (Some \<lparr>queries = [''dessert ideas'', ''dessert plz'']\<rparr>)
   \<and> (\<exists>recs printed.
         generate_queries_parallel ex_llm ex_queries_format [2, 0, 1]
             [ex_tuple_a, ex_tuple_b, ex_tuple_c] = Inr (recs, printed)
       \<and> map (\<lambda>x. (query x, dimension_tuple x)) recs
           = [(''dessert ideas'', ex_tuple_c), (''dessert plz'', ex_tuple_c),
              (''brunch ideas'', ex_tuple_a), (''brunch plz'', ex_tuple_a)])
   \<and> generate_queries_for_tuple (ex_llm 1) ex_queries_format ex_tuple_b
       = ([], [''Error generating queries for tuple: rate limit''])"
proof -
  let ?dts = "[ex_tuple_a, ex_tuple_b, ex_tuple_c]"
  let ?r = "\<lambda>i. \<lparr>queries = [occasion (?dts ! i) @ '' ideas'', occasion (?dts ! i) @ '' plz'']\<rparr>"
  have f: "(1::nat) < length ?dts" by simp
  have a: "attempt_once (ex_llm 1 (?dts ! 1)) ex_queries_format k = Inl (Exception ''rate limit'')" for k
    by (simp add: attempt_once_def ex_llm_def)
  have ok: "\<forall>i<length ?dts. i \<noteq> 1 \<longrightarrow>
      fst (call_llm (ex_llm i (?dts ! i)) ex_queries_format) = Inr (Some (?r i))"
    by (simp add: call_llm_def upt_rec max_retries_def attempt_once_def ex_llm_def
        ex_queries_format_def)
  have occ: "occasion ex_tuple_a = ''brunch''" "occasion ex_tuple_c = ''dessert''"
    by (simp_all add: ex_tuple_a_def ex_tuple_c_def)
  from failed_tuple_contributes_nothing [of "[2, 0, 1]" ?dts 1 ex_llm ex_queries_format
      "Exception ''rate limit''" "Exception ''rate limit''" "Exception ''rate limit''" ?r,
      OF ex_perm f a a a ok]
  have "(\<exists>recs printed.
         generate_queries_parallel ex_llm ex_queries_format [2, 0, 1] ?dts = Inr (recs, printed)
       \<and> map (\<lambda>x. (query x, dimension_tuple x)) recs
           = [(''dessert ideas'', ex_tuple_c), (''dessert plz'', ex_tuple_c),
              (''brunch ideas'', ex_tuple_a), (''brunch plz'', ex_tuple_a)])
     \<and> generate_queries_for_tuple (ex_llm 1) ex_queries_format ex_tuple_b
       = ([], [''Error generating queries for tuple: rate limit''])"
    by (simp add: occ)
  moreover have "fst (call_llm (ex_llm 0 (?dts ! 0)) ex_queries_format)
       = Inr (Some \<lparr>queries = [''brunch ideas'', ''brunch plz'']\<rparr>)"
    and "fst (call_llm (ex_llm 2 (?dts ! 2)) ex_queries_format)
       = Inr (Some \<lparr>queries = [''dessert ideas'', ''dessert plz'']\<rparr>)"
    by (simp_all add: call_llm_def upt_rec max_retries_def attempt_once_def ex_llm_def
        ex_queries_format_def occ)
  ultimately show ?thesis using ex_perm f a [of 0] a [of 1] a [of 2] by blast
qed

section \<open>Properties of the dimension tuple generator\<close>

lemma collect_responses_Inr:
  "collect_responses (map Inr rs) acc = Inr (acc @ rs)"
  by (induction rs arbitrary: acc) simp_all

lemma collect_responses_first_failure:
  "collect_responses (map Inr rs @ Inl e # rest) acc = Inl e"
  by (induction rs arbitrary: acc) simp_all

lemma collect_responses_failure:
  "\<exists>x\<in>set fs. isl x \<Longrightarrow> \<exists>e. collect_responses fs acc = Inl e"
proof (induction fs arbitrary: acc)
  case Nil
  then show ?case by simp
next
  case (Cons x fs)
  then show ?case by (cases x) auto
qed

lemma generate_dimension_tuples_failure:
  "collect_responses (submit_tuple_tasks completions response_format) [] = Inl e \<Longrightarrow>
     generate_dimension_tuples completions response_format
       = ([], [''Generating dimension tuples in parallel...'',
               ''Error generating dimension tuples: '' @ str_exn e])"
  by (simp add: generate_dimension_tuples_def)

lemma ex_calls:
  "fst (call_llm (ex_completions i) ex_tuples_format)
     = (if i = 3 then Inl (Exception ''timeout'') else Inr (Some \<lparr>tuples = [ex_tuple_a, ex_tuple_b]\<rparr>))"
  by (simp add: call_llm_def upt_rec max_retries_def attempt_once_def ex_completions_def
      ex_tuples_format_def)

lemma ex_tuples_ne: "ex_tuple_a \<noteq> ex_tuple_b"
  by (simp add: ex_tuple_a_def ex_tuple_b_def)

lemma ex_dedup:
  "dedup ([ex_tuple_a, ex_tuple_b] @ [ex_tuple_a, ex_tuple_b] @ [ex_tuple_a, ex_tuple_b]
            @ [ex_tuple_a, ex_tuple_b]) = [ex_tuple_a, ex_tuple_b]"
  using ex_tuples_ne by (simp add: dedup_def Let_def model_dump_json_eq_iff)

text \<open>
  C1, as the code has it. The generator is all or nothing: when all five sub-requests
  succeed it returns the deduplicated concatenation of their tuples, in submission order;
  when some sub-request fails it returns the empty list, and the line it prints carries
  the exception of the first failing sub-request in submission order.
\<close>

theorem generate_dimension_tuples_all_or_nothing:
  "((\<forall>i<5. fst (call_llm (completions i) response_format) = Inr (Some (r i))) \<longrightarrow>
      fst (generate_dimension_tuples completions response_format)
        = dedup (concat (map (\<lambda>i. tuples (r i)) [0..<5])))
   \<and> ((\<exists>i<5. \<exists>e. fst (call_llm (completions i) response_format) = Inl e) \<longrightarrow>
      fst (generate_dimension_tuples completions response_format) = [])
   \<and> (f < 5 \<and> fst (call_llm (completions f) response_format) = Inl e
        \<and> (\<forall>i<f. \<exists>x. fst (call_llm (completions i) response_format) = Inr x) \<longrightarrow>
      generate_dimension_tuples completions response_format
        = ([], [''Generating dimension tuples in parallel...'',
                ''Error generating dimension tuples: '' @ str_exn e]))"
proof (intro conjI impI)
  let ?g = "\<lambda>i. fst (call_llm (completions i) response_format)"
  {
    assume ok: "\<forall>i<5. ?g i = Inr (Some (r i))"
    have "map ?g [0..<5] = map Inr (map (\<lambda>i. Some (r i)) [0..<5])"
      using ok by simp
    then have sub: "submit_tuple_tasks completions response_format
        = map Inr (map (\<lambda>i. Some (r i)) [0..<5])"
      by (simp only: submit_tuple_tasks_def)
    have "collect_responses (submit_tuple_tasks completions response_format) []
        = Inr (map Some (map r [0..<5]))"
      unfolding sub collect_responses_Inr by (simp del: upt_Suc)
    moreover have "extend_all (map Some (map r [0..<5])) []
        = Inr (concat (map (\<lambda>i. tuples (r i)) [0..<5]))"
      unfolding extend_all_Some by (simp add: comp_def del: upt_Suc)
    ultimately show "fst (generate_dimension_tuples completions response_format)
        = dedup (concat (map (\<lambda>i. tuples (r i)) [0..<5]))"
      by (simp only: generate_dimension_tuples_def Let_def sum.case prod.case fst_conv)
  }
  {
    assume "\<exists>i<5. \<exists>e. ?g i = Inl e"
    then have "\<exists>x\<in>set (submit_tuple_tasks completions response_format). isl x"
      by (auto simp: submit_tuple_tasks_def simp del: upt_Suc intro!: bexI)
    then obtain e where "collect_responses (submit_tuple_tasks completions response_format) [] = Inl e"
      using collect_responses_failure by blast
    then show "fst (generate_dimension_tuples completions response_format) = []"
      by (simp add: generate_dimension_tuples_failure)
  }
  {
    assume a: "f < 5 \<and> ?g f = Inl e \<and> (\<forall>i<f. \<exists>x. ?g i = Inr x)"
    then have f: "f < 5" and fe: "?g f = Inl e" and before: "\<forall>i<f. \<exists>x. ?g i = Inr x"
      by simp_all
    from before have "\<forall>i<f. ?g i = Inr (projr (?g i))" by auto
    then have pre: "map ?g [0..<f] = map Inr (map (\<lambda>i. projr (?g i)) [0..<f])"
      by simp
    from f have "[0..<5] = [0..<f] @ f # [Suc f..<5]"
      by (metis le_add2 le_add_same_cancel2 less_imp_add_positive upt_add_eq_append upt_conv_Cons)
    then have "submit_tuple_tasks completions response_format
        = map ?g [0..<f] @ ?g f # map ?g [Suc f..<5]"
      by (simp add: submit_tuple_tasks_def del: upt_Suc)
    then have "collect_responses (submit_tuple_tasks completions response_format) [] = Inl e"
      by (simp only: pre fe collect_responses_first_failure)
    then show "generate_dimension_tuples completions response_format
        = ([], [''Generating dimension tuples in parallel...'',
                ''Error generating dimension tuples: '' @ str_exn e])"
      by (rule generate_dimension_tuples_failure)
  }
qed

theorem generate_dimension_tuples_all_or_nothing_witness:
  "fst (call_llm (ex_all_succeed 0) ex_tuples_format) = Inr (Some \<lparr>tuples = [ex_tuple_a, ex_tuple_b]\<rparr>)
   \<and> fst (call_llm (ex_all_succeed 1) ex_tuples_format) = Inr (Some \<lparr>tuples = [ex_tuple_a, ex_tuple_b]\<rparr>)
   \<and> fst (call_llm (ex_all_succeed 2) ex_tuples_format) = Inr (Some \<lparr>tuples = [ex_tuple_a, ex_tuple_b]\<rparr>)
   \<and> fst (call_llm (ex_all_succeed 3) ex_tuples_format) = Inr (Some \<lparr>tuples = [ex_tuple_a, ex_tuple_b]\<rparr>)
   \<and> fst (call_llm (ex_all_succeed 4) ex_tuples_format) = Inr (Some \<lparr>tuples = [ex_tuple_a, ex_tuple_b]\<rparr>)
   \<and> fst (generate_dimension_tuples ex_all_succeed ex_tuples_format) = [ex_tuple_a, ex_tuple_b]
   \<and> (3::nat) < 5
   \<and> fst (call_llm (ex_completions 3) ex_tuples_format) = Inl (Exception ''timeout'')
   \<and> fst (call_llm (ex_completions 0) ex_tuples_format) = Inr (Some \<lparr>tuples = [ex_tuple_a, ex_tuple_b]\<rparr>)
   \<and> fst (call_llm (ex_completions 1) ex_tuples_format) = Inr (Some \<lparr>tuples = [ex_tuple_a, ex_tuple_b]\<rparr>)
   \<and> fst (call_llm (ex_completions 2) ex_tuples_format) = Inr (Some \<lparr>tuples = [ex_tuple_a, ex_tuple_b]\<rparr>)
   \<and> fst (generate_dimension_tuples ex_completions ex_tuples_format) = []
   \<and> generate_dimension_tuples ex_completions ex_tuples_format
       = ([], [''Generating dimension tuples in parallel...'',
               ''Error generating dimension tuples: timeout''])"
proof -
  let ?r = "\<lambda>i::nat. \<lparr>tuples = [ex_tuple_a, ex_tuple_b]\<rparr>"
  have ok: "\<forall>i<5. fst (call_llm (ex_all_succeed i) ex_tuples_format) = Inr (Some (?r i))"
    by (simp add: call_llm_def upt_rec max_retries_def attempt_once_def ex_all_succeed_def
        ex_tuples_format_def)
  have some: "\<exists>i<5. \<exists>e. fst (call_llm (ex_completions i) ex_tuples_format) = Inl e"
    by (rule exI [of _ 3]) (simp add: ex_calls)
  have first: "(3::nat) < 5 \<and> fst (call_llm (ex_completions 3) ex_tuples_format) = Inl (Exception ''timeout'')
      \<and> (\<forall>i<3. \<exists>x. fst (call_llm (ex_completions i) ex_tuples_format) = Inr x)"
    by (simp add: ex_calls)
  have d: "dedup (concat (map (\<lambda>i. tuples (?r i)) [0..<5])) = [ex_tuple_a, ex_tuple_b]"
    using ex_tuples_ne by (simp add: upt_rec dedup_def Let_def model_dump_json_eq_iff)
  note t1 = generate_dimension_tuples_all_or_nothing
    [of ex_all_succeed ex_tuples_format ?r 3 "Exception ''timeout''"]
  note t2 = generate_dimension_tuples_all_or_nothing
    [of ex_completions ex_tuples_format ?r 3 "Exception ''timeout''"]
  from t1 ok d have a: "fst (generate_dimension_tuples ex_all_succeed ex_tuples_format)
      = [ex_tuple_a, ex_tuple_b]" by simp
  from t2 some have b: "fst (generate_dimension_tuples ex_completions ex_tuples_format) = []"
    by blast
  from t2 first have c: "generate_dimension_tuples ex_completions ex_tuples_format
       = ([], [''Generating dimension tuples in parallel...'',
               ''Error generating dimension tuples: timeout''])"
    by simp
  have oks: "fst (call_llm (ex_all_succeed i) ex_tuples_format)
      = Inr (Some \<lparr>tuples = [ex_tuple_a, ex_tuple_b]\<rparr>)" for i
    by (simp add: call_llm_def upt_rec max_retries_def attempt_once_def ex_all_succeed_def
        ex_tuples_format_def)
  from a b c show ?thesis by (simp add: oks ex_calls)
qed

text \<open>
  Four sub-requests return the same two tuples and sub-request 3 fails its three
  attempts: the deduplicated tuples of the four are not in the output, which is empty.
\<close>

theorem single_failure_aborts_counterexample:
  "fst (call_llm (ex_completions 0) ex_tuples_format) = Inr (Some \<lparr>tuples = [ex_tuple_a, ex_tuple_b]\<rparr>)
   \<and> fst (call_llm (ex_completions 1) ex_tuples_format) = Inr (Some \<lparr>tuples = [ex_tuple_a, ex_tuple_b]\<rparr>)
   \<and> fst (call_llm (ex_completions 2) ex_tuples_format) = Inr (Some \<lparr>tuples = [ex_tuple_a, ex_tuple_b]\<rparr>)
   \<and> fst (call_llm (ex_completions 3) ex_tuples_format) = Inl (Exception ''timeout'')
   \<and> fst (call_llm (ex_completions 4) ex_tuples_format) = Inr (Some \<lparr>tuples = [ex_tuple_a, ex_tuple_b]\<rparr>)
   \<and> dedup ([ex_tuple_a, ex_tuple_b] @ [ex_tuple_a, ex_tuple_b] @ [ex_tuple_a, ex_tuple_b]
              @ [ex_tuple_a, ex_tuple_b]) = [ex_tuple_a, ex_tuple_b]
   \<and> generate_dimension_tuples ex_completions ex_tuples_format
       = ([], [''Generating dimension tuples in parallel...'',
               ''Error generating dimension tuples: timeout''])"
proof -
  have "generate_dimension_tuples ex_completions ex_tuples_format
       = ([], [''Generating dimension tuples in parallel...'',
               ''Error generating dimension tuples: timeout''])"
    by (simp add: ex_calls generate_dimension_tuples_def submit_tuple_tasks_def upt_rec)
  with ex_dedup show ?thesis by (simp add: ex_calls)
qed

section \<open>Properties of the persister\<close>

text \<open>
  C3, as the code has it. Given no record, \<open>save_queries_to_csv\<close> prints one line and
  returns normally: it raises nothing and leaves the files as they are. Given at least one
  record it writes the rows to the output file and prints how many it saved.
\<close>

theorem save_queries_to_csv_soft_fail:
  "save_queries_to_csv [] w = (Inr (), w\<lparr>stdout := stdout w @ [''No queries to save.'']\<rparr>)
   \<and> files (snd (save_queries_to_csv [] w)) = files w
   \<and> (qs \<noteq> [] \<longrightarrow>
        fst (save_queries_to_csv qs w) = Inr ()
      \<and> files (snd (save_queries_to_csv qs w)) = (files w)(OUTPUT_CSV_PATH \<mapsto> map to_row qs)
      \<and> stdout (snd (save_queries_to_csv qs w))
          = stdout w @ [''Saved '' @ dec (length qs) @ '' queries to '' @ OUTPUT_CSV_PATH])"
  by (simp add: save_queries_to_csv_def Let_def)

theorem save_queries_to_csv_soft_fail_witness:
  "[ex_record] \<noteq> []
   \<and> fst (save_queries_to_csv [ex_record] empty_world) = Inr ()
   \<and> files (snd (save_queries_to_csv [ex_record] empty_world)) ''synthetic_queries_for_analysis.csv''
       = Some [\<lparr>col_id = ''SYN001'', col_query = ''brunch ideas'',
                col_dimension_tuple_json = model_dump_json ex_tuple_a,
                col_is_realistic_and_kept = 1, col_notes_for_filtering = ''''\<rparr>]
   \<and> stdout (snd (save_queries_to_csv [ex_record] empty_world))
       = [''Saved 1 queries to synthetic_queries_for_analysis.csv'']
   \<and> files (snd (save_queries_to_csv [] empty_world)) ''synthetic_queries_for_analysis.csv'' = None"
  using save_queries_to_csv_soft_fail [of empty_world "[ex_record]"]
  by (simp add: empty_world_def OUTPUT_CSV_PATH_def to_row_def ex_record_def dec.simps digit_char_def)

text \<open>
  On the empty list the call returns; no exception leaves it.
\<close>

theorem empty_save_returns_counterexample:
  "save_queries_to_csv [] empty_world
     = (Inr (), \<lparr>files = files empty_world, stdout = [''No queries to save.'']\<rparr>)"
  by (simp add: save_queries_to_csv_def empty_world_def)

section \<open>Properties of the chat backend\<close>

lemma strip_ex: "strip '' Try shakshuka. '' = ''Try shakshuka.''"
  by (simp add: strip_def is_space_def)

text \<open>
  C6. For a conversation that is empty or whose first entry does not have the role
  \<open>system\<close>, the conversation sent to the model is the input with the default system entry
  (role \<open>system\<close>, content \<open>SYSTEM_PROMPT\<close>) put in front of it; for a conversation that
  begins with a system entry, the input is sent as it is.
\<close>

theorem get_agent_response_sends_system_first:
  assumes "messages < length (heap w)"
  shows "(heap w ! messages = [] \<or> role (heap w ! messages ! 0) \<noteq> ''system'' \<longrightarrow>
            requests (snd (get_agent_response SYSTEM_PROMPT completion messages w))
              = requests w @ [\<lparr>role = ''system'', content = SYSTEM_PROMPT\<rparr> # heap w ! messages])
       \<and> (heap w ! messages \<noteq> [] \<and> role (heap w ! messages ! 0) = ''system'' \<longrightarrow>
            requests (snd (get_agent_response SYSTEM_PROMPT completion messages w))
              = requests w @ [heap w ! messages])"
  using assms
  by (auto simp: get_agent_response_def alloc_def list_add_def Let_def nth_append
      split: sum.splits)

theorem get_agent_response_sends_system_first_witness:
  "(0::nat) < length (heap ex_chat_world)
   \<and> role (heap ex_chat_world ! 0 ! 0) \<noteq> ''system''
   \<and> requests (snd (get_agent_response ex_prompt ex_chat 0 ex_chat_world))
       = [[\<lparr>role = ''system'', content = ex_prompt\<rparr>, \<lparr>role = ''user'', content = ''hi''\<rparr>]]
   \<and> (0::nat) < length (heap ex_chat_world_sys)
   \<and> heap ex_chat_world_sys ! 0 \<noteq> [] \<and> role (heap ex_chat_world_sys ! 0 ! 0) = ''system''
   \<and> requests (snd (get_agent_response ex_prompt ex_chat 0 ex_chat_world_sys))
       = [[\<lparr>role = ''system'', content = ''Be brief.''\<rparr>, \<lparr>role = ''user'', content = ''hi''\<rparr>]]"
proof -
  have v1: "(0::nat) < length (heap ex_chat_world)" and v2: "(0::nat) < length (heap ex_chat_world_sys)"
    by (simp_all add: ex_chat_world_def ex_chat_world_sys_def)
  have h1: "role (heap ex_chat_world ! 0 ! 0) \<noteq> ''system''"
    and h2: "heap ex_chat_world_sys ! 0 \<noteq> [] \<and> role (heap ex_chat_world_sys ! 0 ! 0) = ''system''"
    by (simp_all add: ex_chat_world_def ex_chat_world_sys_def)
  from get_agent_response_sends_system_first [OF v1, of ex_prompt ex_chat] h1
  have a: "requests (snd (get_agent_response ex_prompt ex_chat 0 ex_chat_world))
       = [[\<lparr>role = ''system'', content = ex_prompt\<rparr>, \<lparr>role = ''user'', content = ''hi''\<rparr>]]"
    by (simp add: ex_chat_world_def)
  from get_agent_response_sends_system_first [OF v2, of ex_prompt ex_chat] h2
  have b: "requests (snd (get_agent_response ex_prompt ex_chat 0 ex_chat_world_sys))
       = [[\<lparr>role = ''system'', content = ''Be brief.''\<rparr>, \<lparr>role = ''user'', content = ''hi''\<rparr>]]"
    by (simp add: ex_chat_world_sys_def)
  from v1 h1 a v2 h2 b show ?thesis by blast
qed

text \<open>
  C5, as the code has it. When the completion answers, the returned value is a new list
  object: the conversation sent to the model (the input, with the default system entry in
  front when the input does not begin with one) followed by exactly one assistant entry,
  whose content is the stripped reply. Whether the completion answers or raises, every
  list object that existed before the call, the input among them, is as it was.
\<close>

theorem get_agent_response_new_list:
  fixes w :: chat_world and messages :: ref and SYSTEM_PROMPT :: string
  defines "msgs \<equiv> heap w ! messages"
  defines "sent \<equiv> (if msgs = [] \<or> role (msgs ! 0) \<noteq> ''system''
                     then \<lparr>role = ''system'', content = SYSTEM_PROMPT\<rparr> # msgs else msgs)"
  assumes "messages < length (heap w)"
  shows "(completion sent = Inr reply \<longrightarrow>
            (\<exists>updated w'.
               get_agent_response SYSTEM_PROMPT completion messages w = (Inr updated, w')
             \<and> heap w' ! updated = sent @ [\<lparr>role = ''assistant'', content = strip reply\<rparr>]
             \<and> length (heap w) \<le> updated \<and> updated < length (heap w') \<and> updated \<noteq> messages
             \<and> heap w' ! messages = msgs
             \<and> take (length (heap w)) (heap w') = heap w))
       \<and> (completion sent = Inl e \<longrightarrow>
            (\<exists>w'. get_agent_response SYSTEM_PROMPT completion messages w = (Inl e, w')
             \<and> heap w' ! messages = msgs
             \<and> take (length (heap w)) (heap w') = heap w))"
  using assms unfolding msgs_def sent_def
  by (auto simp: get_agent_response_def alloc_def list_add_def Let_def nth_append)

theorem get_agent_response_new_list_witness:
  "(0::nat) < length (heap ex_chat_world_sys)
   \<and> ex_chat (heap ex_chat_world_sys ! 0) = Inr '' Try shakshuka. ''
   \<and> (\<exists>updated w'.
         get_agent_response ex_prompt ex_chat 0 ex_chat_world_sys = (Inr updated, w')
       \<and> heap w' ! updated
           = [\<lparr>role = ''system'', content = ''Be brief.''\<rparr>, \<lparr>role = ''user'', content = ''hi''\<rparr>,
              \<lparr>role = ''assistant'', content = ''Try shakshuka.''\<rparr>]
       \<and> updated \<noteq> 0
       \<and> heap w' ! 0 = heap ex_chat_world_sys ! 0)
   \<and> ex_chat_down (heap ex_chat_world_sys ! 0) = Inl (Exception ''service unavailable'')
   \<and> (\<exists>w'. get_agent_response ex_prompt ex_chat_down 0 ex_chat_world_sys
               = (Inl (Exception ''service unavailable''), w')
            \<and> heap w' ! 0 = heap ex_chat_world_sys ! 0)"
proof -
  have v: "(0::nat) < length (heap ex_chat_world_sys)"
    by (simp add: ex_chat_world_sys_def)
  have c1: "ex_chat (heap ex_chat_world_sys ! 0) = Inr '' Try shakshuka. ''"
    by (simp add: ex_chat_def)
  have c2: "ex_chat_down (heap ex_chat_world_sys ! 0) = Inl (Exception ''service unavailable'')"
    by (simp add: ex_chat_down_def)
  have s: "(if heap ex_chat_world_sys ! 0 = [] \<or> role (heap ex_chat_world_sys ! 0 ! 0) \<noteq> ''system''
            then \<lparr>role = ''system'', content = ex_prompt\<rparr> # heap ex_chat_world_sys ! 0
            else heap ex_chat_world_sys ! 0) = heap ex_chat_world_sys ! 0"
    by (simp add: ex_chat_world_sys_def)
  note t1 = get_agent_response_new_list [where w = ex_chat_world_sys and messages = 0
      and SYSTEM_PROMPT = ex_prompt and completion = ex_chat
      and reply = "'' Try shakshuka. ''" and e = "Exception ''service unavailable''",
      OF v, unfolded s]
  note t2 = get_agent_response_new_list [where w = ex_chat_world_sys and messages = 0
      and SYSTEM_PROMPT = ex_prompt and completion = ex_chat_down
      and reply = "'' Try shakshuka. ''" and e = "Exception ''service unavailable''",
      OF v, unfolded s]
  from t1 c1 obtain updated w' where
    r: "get_agent_response ex_prompt ex_chat 0 ex_chat_world_sys = (Inr updated, w')"
    and u: "heap w' ! updated = heap ex_chat_world_sys ! 0
              @ [\<lparr>role = ''assistant'', content = strip '' Try shakshuka. ''\<rparr>]"
    and n: "updated \<noteq> 0" and k: "heap w' ! 0 = heap ex_chat_world_sys ! 0"
    by blast
  from u have u': "heap w' ! updated
           = [\<lparr>role = ''system'', content = ''Be brief.''\<rparr>, \<lparr>role = ''user'', content = ''hi''\<rparr>,
              \<lparr>role = ''assistant'', content = ''Try shakshuka.''\<rparr>]"
    by (simp add: strip_ex ex_chat_world_sys_def)
  from t2 c2 obtain w'' where
    r2: "get_agent_response ex_prompt ex_chat_down 0 ex_chat_world_sys
           = (Inl (Exception ''service unavailable''), w'')"
    and k2: "heap w'' ! 0 = heap ex_chat_world_sys ! 0"
    by blast
  from v c1 r u' n k c2 r2 k2 show ?thesis by blast
qed

text \<open>
  A conversation of one user entry comes back with three entries: it is not the input
  with one entry appended.
\<close>

theorem one_entry_appended_counterexample:
  "heap ex_chat_world ! 0 = [\<lparr>role = ''user'', content = ''hi''\<rparr>]
   \<and> fst (get_agent_response ex_prompt ex_chat 0 ex_chat_world) = Inr 4
   \<and> heap (snd (get_agent_response ex_prompt ex_chat 0 ex_chat_world)) ! 4
       = [\<lparr>role = ''system'', content = ex_prompt\<rparr>, \<lparr>role = ''user'', content = ''hi''\<rparr>,
          \<lparr>role = ''assistant'', content = ''Try shakshuka.''\<rparr>]
   \<and> heap (snd (get_agent_response ex_prompt ex_chat 0 ex_chat_world)) ! 4
       \<noteq> heap ex_chat_world ! 0 @ [\<lparr>role = ''assistant'', content = ''Try shakshuka.''\<rparr>]"
proof -
  have "get_agent_response ex_prompt ex_chat 0 ex_chat_world
     = (Inr 4,
        \<lparr>heap = [[\<lparr>role = ''user'', content = ''hi''\<rparr>],
                 [\<lparr>role = ''system'', content = ex_prompt\<rparr>],
                 [\<lparr>role = ''system'', content = ex_prompt\<rparr>, \<lparr>role = ''user'', content = ''hi''\<rparr>],
                 [\<lparr>role = ''assistant'', content = ''Try shakshuka.''\<rparr>],
                 [\<lparr>role = ''system'', content = ex_prompt\<rparr>, \<lparr>role = ''user'', content = ''hi''\<rparr>,
                  \<lparr>role = ''assistant'', content = ''Try shakshuka.''\<rparr>]],
         requests = [[\<lparr>role = ''system'', content = ex_prompt\<rparr>, \<lparr>role = ''user'', content = ''hi''\<rparr>]]\<rparr>)"
    by (simp add: get_agent_response_def alloc_def list_add_def Let_def ex_chat_world_def
        ex_chat_def strip_ex)
  then show ?thesis by (simp add: ex_chat_world_def)
qed

end
